theory Spec2Isabelle
  imports Main "HOL-Library.Sublist"
begin

section \<open>Python string primitives used by the parsers\<close>

text \<open>
  Strings are lists of characters with code points below 256. The functions below are
  the library operations the pipeline's parsers call: \<^verbatim>\<open>str.strip\<close>, \<^verbatim>\<open>str.lower\<close>,
  \<^verbatim>\<open>str.startswith\<close>, \<^verbatim>\<open>sub in s\<close>, \<^verbatim>\<open>str.split\<close>, \<^verbatim>\<open>str.replace\<close>, \<^verbatim>\<open>str(n)\<close> and \<^verbatim>\<open>int(s)\<close>.
\<close>

definition py_isspace :: "char \<Rightarrow> bool" where
  "py_isspace c = (c \<in> set [CHR 0x09, CHR 0x0A, CHR 0x0B, CHR 0x0C, CHR 0x0D,
      CHR 0x1C, CHR 0x1D, CHR 0x1E, CHR 0x1F, CHR 0x20, CHR 0x85, CHR 0xA0])"

definition strip :: "string \<Rightarrow> string" where
  "strip s = rev (dropWhile py_isspace (rev (dropWhile py_isspace s)))"

definition upper_chars :: string where
  "upper_chars = ''ABCDEFGHIJKLMNOPQRSTUVWXYZ'' @
     [CHR 0xC0, CHR 0xC1, CHR 0xC2, CHR 0xC3, CHR 0xC4, CHR 0xC5, CHR 0xC6, CHR 0xC7,
      CHR 0xC8, CHR 0xC9, CHR 0xCA, CHR 0xCB, CHR 0xCC, CHR 0xCD, CHR 0xCE, CHR 0xCF,
      CHR 0xD0, CHR 0xD1, CHR 0xD2, CHR 0xD3, CHR 0xD4, CHR 0xD5, CHR 0xD6,
      CHR 0xD8, CHR 0xD9, CHR 0xDA, CHR 0xDB, CHR 0xDC, CHR 0xDD, CHR 0xDE]"

definition lower_chars :: string where
  "lower_chars = ''abcdefghijklmnopqrstuvwxyz'' @
     [CHR 0xE0, CHR 0xE1, CHR 0xE2, CHR 0xE3, CHR 0xE4, CHR 0xE5, CHR 0xE6, CHR 0xE7,
      CHR 0xE8, CHR 0xE9, CHR 0xEA, CHR 0xEB, CHR 0xEC, CHR 0xED, CHR 0xEE, CHR 0xEF,
      CHR 0xF0, CHR 0xF1, CHR 0xF2, CHR 0xF3, CHR 0xF4, CHR 0xF5, CHR 0xF6,
      CHR 0xF8, CHR 0xF9, CHR 0xFA, CHR 0xFB, CHR 0xFC, CHR 0xFD, CHR 0xFE]"

definition lower_char :: "char \<Rightarrow> char" where
  "lower_char c = (case map_of (zip upper_chars lower_chars) c of Some l \<Rightarrow> l | None \<Rightarrow> c)"

definition lower :: "string \<Rightarrow> string" where
  "lower s = map lower_char s"

fun startswith :: "string \<Rightarrow> string \<Rightarrow> bool" where
  "startswith s [] = True"
| "startswith [] (p # ps) = False"
| "startswith (c # cs) (p # ps) = (c = p \<and> startswith cs ps)"

text \<open>
  \<open>cut_at sub s\<close> is \<^verbatim>\<open>s.split(sub, 1)\<close> when \<^verbatim>\<open>sub\<close> occurs in \<^verbatim>\<open>s\<close>: the text before
  the first occurrence and the text after it. \<open>None\<close> when \<^verbatim>\<open>sub\<close> does not occur, which is
  also the test \<^verbatim>\<open>sub in s\<close>.
\<close>

fun cut_at :: "string \<Rightarrow> string \<Rightarrow> (string \<times> string) option" where
  "cut_at sub [] = (if sub = [] then Some ([], []) else None)"
| "cut_at sub (c # cs) =
     (if startswith (c # cs) sub then Some ([], drop (length sub) (c # cs))
      else map_option (\<lambda>(b, a). (c # b, a)) (cut_at sub cs))"

definition contains :: "string \<Rightarrow> string \<Rightarrow> bool" where
  "contains sub s = (cut_at sub s \<noteq> None)"

text \<open>\<^verbatim>\<open>s.split(sep)\<close> for a one-character separator: every piece, at least one.\<close>

fun split_on :: "char \<Rightarrow> string \<Rightarrow> string list" where
  "split_on sep [] = [[]]"
| "split_on sep (c # cs) =
     (if c = sep then [] # split_on sep cs
      else (case split_on sep cs of p # ps \<Rightarrow> (c # p) # ps | [] \<Rightarrow> [[c]]))"

text \<open>
  \<^verbatim>\<open>s.replace(old, new)\<close>: occurrences are replaced from the left and do not overlap.
  \<open>replace_scan\<close> walks the string; its counter is the number of characters of the
  occurrence just replaced that are still to be skipped.
\<close>

fun replace_scan :: "string \<Rightarrow> string \<Rightarrow> nat \<Rightarrow> string \<Rightarrow> string" where
  "replace_scan old new k [] = []"
| "replace_scan old new (Suc k) (c # cs) = replace_scan old new k cs"
| "replace_scan old new 0 (c # cs) =
     (if startswith (c # cs) old then new @ replace_scan old new (length old - 1) cs
      else c # replace_scan old new 0 cs)"

definition replace_all :: "string \<Rightarrow> string \<Rightarrow> string \<Rightarrow> string" where
  "replace_all old new s =
     (if old = [] then new @ concat (map (\<lambda>c. c # new) s) else replace_scan old new 0 s)"

definition digit_chars :: string where
  "digit_chars = ''0123456789''"

fun str_of_nat :: "nat \<Rightarrow> string" where
  "str_of_nat n =
     (if n < 10 then [digit_chars ! n]
      else str_of_nat (n div 10) @ [digit_chars ! (n mod 10)])"

definition is_digit :: "char \<Rightarrow> bool" where
  "is_digit c = (c \<in> set digit_chars)"

definition digit_val :: "char \<Rightarrow> nat" where
  "digit_val c =
     (case map_of (zip digit_chars [0, 1, 2, 3, 4, 5, 6, 7, 8, 9]) c of
        Some d \<Rightarrow> d | None \<Rightarrow> 0)"

text \<open>Decimal digits, with single underscores allowed between two digits.\<close>

fun digits_ok :: "string \<Rightarrow> bool" where
  "digits_ok [] = False"
| "digits_ok [c] = is_digit c"
| "digits_ok (c # d # cs) =
     (is_digit c \<and>
      (if d = CHR ''_'' then cs \<noteq> [] \<and> digits_ok cs else digits_ok (d # cs)))"

text \<open>
  \<^verbatim>\<open>int(s)\<close> on a string: surrounding whitespace is ignored, one sign is allowed, the rest
  is a digit string. \<open>None\<close> is the \<^verbatim>\<open>ValueError\<close>; CPython also raises it for more than
  4300 digits.
\<close>

definition py_int :: "string \<Rightarrow> int option" where
  "py_int s =
     (let t = strip s;
          neg = (case t of c # r \<Rightarrow> c = CHR ''-'' | [] \<Rightarrow> False);
          body = (case t of c # r \<Rightarrow> if c = CHR ''-'' \<or> c = CHR ''+'' then r else t
                  | [] \<Rightarrow> []);
          ds = filter is_digit body
      in if digits_ok body \<and> length ds \<le> 4300
         then Some ((if neg then - 1 else 1) * int (foldl (\<lambda>a c. 10 * a + digit_val c) 0 ds))
         else None)"

section \<open>Data model\<close>

text \<open>
  A record of the pipeline is a Python dict; the model keeps the keys that the modelled
  code reads or writes. \<open>summary\<close> and \<open>sentiment\<close> are written by the summarization
  stage, \<open>category\<close> by the categorization stage. An insight is the dict built by
  \<^verbatim>\<open>generate_insights_llm_clustering\<close> without its timestamp.
\<close>

record post =
  post_id :: string
  title :: string
  summary :: string
  sentiment :: string
  category :: string

record insight =
  insight_id :: string
  insight_category :: string
  insight_summary :: string
  linked_posts :: "string list"
  cluster_size :: nat

text \<open>
  A Python dict with its insertion order is an association list with distinct keys:
  assignment to a new key appends, assignment to an existing key replaces in place.
  The cluster map sends a cluster id to the list of its member indices.
\<close>

type_synonym ('k, 'v) dict = "('k \<times> 'v) list"

type_synonym clusters = "(nat, nat list) dict"

definition dict_set :: "'k \<Rightarrow> 'v \<Rightarrow> ('k, 'v) dict \<Rightarrow> ('k, 'v) dict" where
  "dict_set k v d =
     (if k \<in> set (map fst d) then map (\<lambda>(k', v'). if k' = k then (k', v) else (k', v')) d
      else d @ [(k, v)])"

definition dict_extend :: "'k \<Rightarrow> 'a list \<Rightarrow> ('k, 'a list) dict \<Rightarrow> ('k, 'a list) dict" where
  "dict_extend k xs d = map (\<lambda>(k', v). if k' = k then (k', v @ xs) else (k', v)) d"

text \<open>
  The value \<^verbatim>\<open>json.loads\<close> returns. A JSON number with a fraction or an exponent
  (a Python float) is outside the model. \<open>JObj\<close> lists the items of the decoded dict.
\<close>

datatype json =
  JNull | JBool bool | JInt int | JStr string | JArr "json list" | JObj "(string \<times> json) list"

section \<open>Oracle gateway\<close>

text \<open>
  An exception is a value of type \<open>error\<close>. \<open>APIError\<close> stands for whatever the completion
  service call raises; the others are the Python exceptions the parsing code can raise.
  \<open>NoResult\<close> marks the use of the \<^verbatim>\<open>None\<close> that \<^verbatim>\<open>safe_llm_call\<close> returns when its loop
  body never runs.
\<close>

datatype error = APIError string | JSONDecodeError | TypeError | ValueError | NoResult

text \<open>
  The observable effects of the gateway are logged: \<open>Invoke\<close> is one call of the wrapped
  operation, \<open>Sleep d\<close> one \<^verbatim>\<open>time.sleep(d)\<close> of the backoff, \<open>Print m\<close> a diagnostic that
  marks a branch, \<open>Save ps db\<close> the hand-over of the records and the insights to
  \<^verbatim>\<open>save_outputs\<close> and \<^verbatim>\<open>generate_dashboard_json\<close>. The fixed pacing sleeps between
  batches and the progress output are not logged.
\<close>

datatype event =
  Invoke | Sleep int | Print string | Save "post list" "(string, insight list) dict"

record 's world =
  inner :: 's
  events :: "event list"

text \<open>
  \<^verbatim>\<open>
  def safe_llm_call(fn, retries=3, delay=3):
      for i in range(retries):
          try:
              return fn()
          except Exception as e:
              if i < retries - 1:
                  wait_time = delay * (2 ** i)
                  time.sleep(wait_time)
              else:
                  raise
  \<close>
  The wrapped operation acts on the state \<open>inner\<close>. The result \<open>Inr None\<close> is the
  \<^verbatim>\<open>None\<close> of falling out of the loop.
\<close>

fun safe_llm_loop ::
  "('s \<Rightarrow> (error + 'a) \<times> 's) \<Rightarrow> int \<Rightarrow> int \<Rightarrow> nat list \<Rightarrow> 's world
     \<Rightarrow> (error + 'a option) \<times> 's world" where
  "safe_llm_loop fn retries delay [] w = (Inr None, w)"
| "safe_llm_loop fn retries delay (i # rest) w =
     (case fn (inner w) of
        (Inr v, s) \<Rightarrow> (Inr (Some v), \<lparr>inner = s, events = events w @ [Invoke]\<rparr>)
      | (Inl e, s) \<Rightarrow>
          if int i < retries - 1
          then safe_llm_loop fn retries delay rest
                 \<lparr>inner = s, events = events w @ [Invoke, Sleep (delay * 2 ^ i)]\<rparr>
          else (Inl e, \<lparr>inner = s, events = events w @ [Invoke]\<rparr>))"

definition safe_llm_call ::
  "('s \<Rightarrow> (error + 'a) \<times> 's) \<Rightarrow> int \<Rightarrow> int \<Rightarrow> 's world \<Rightarrow> (error + 'a option) \<times> 's world" where
  "safe_llm_call fn retries delay w = safe_llm_loop fn retries delay [0..<nat retries] w"





text \<open>
  The completion service is scripted: \<open>orc n\<close> is what its \<open>n\<close>-th request does, either
  raising or answering with a text. The state of the pipeline's world is the number of
  requests made so far. The prompts are not modelled: for every run of the program
  there is a script that answers as the service did. \<open>call\<close> is the closure each stage
  hands to the gateway (\<^verbatim>\<open>resp.choices[0].message.content.strip()\<close>), and \<open>gateway\<close> is
  \<^verbatim>\<open>safe_llm_call(call)\<close> with the default three attempts and base delay three.
\<close>

type_synonym service = "nat \<Rightarrow> error + string"

definition call :: "service \<Rightarrow> nat \<Rightarrow> (error + string) \<times> nat" where
  "call orc n = (case orc n of Inl e \<Rightarrow> Inl e | Inr content \<Rightarrow> Inr (strip content), Suc n)"

definition gateway :: "service \<Rightarrow> nat world \<Rightarrow> (error + string) \<times> nat world" where
  "gateway orc w =
     (case safe_llm_call (call orc) 3 3 w of
        (Inl e, w') \<Rightarrow> (Inl e, w')
      | (Inr None, w') \<Rightarrow> (Inl NoResult, w')
      | (Inr (Some result), w') \<Rightarrow> (Inr result, w'))"

text \<open>
  \<^verbatim>\<open>range(0, len(posts), n)\<close> with \<^verbatim>\<open>posts[i:i+n]\<close>: the consecutive slices of length \<open>n\<close>,
  the last one possibly shorter. The step is the constant 10 or 30 in the source, never 0.
\<close>

function chunks :: "nat \<Rightarrow> 'a list \<Rightarrow> 'a list list" where
  "chunks n xs = (if xs = [] \<or> n = 0 then [] else take n xs # chunks n (drop n xs))"
  by pat_completeness auto
termination
  by (relation "measure (\<lambda>(n, xs). length xs)") auto


definition FIXED_CATEGORIES :: "string list" where
  "FIXED_CATEGORIES =
     [''Product Efficacy & Usage'', ''Purchase Drivers & Intent'',
      ''Customer Journey Stage'', ''Experience Friction'']"

definition post_marker :: "nat \<Rightarrow> string" where
  "post_marker k = ''POST_'' @ str_of_nat k @ '':''"

text \<open>
  \<^verbatim>\<open>int(line.split(':')[1].strip())\<close>, the number both the categorization parser and the
  assignment parser read from a line; \<open>None\<close> when the expression raises.
\<close>

definition int_field :: "string \<Rightarrow> int option" where
  "int_field line =
     (case split_on CHR '':'' line of
        before # field # others \<Rightarrow> py_int (strip field)
      | _ \<Rightarrow> None)"

section \<open>Summarization stage\<close>









section \<open>Categorization stage\<close>

text \<open>
  The parsing half of \<^verbatim>\<open>categorize_batch\<close>. The line of a record is the first one that
  contains its marker; the category number is read from the text between the first and
  the second colon of that line. The bare \<^verbatim>\<open>except\<close> turns a failed read into
  \<^verbatim>\<open>Uncategorized\<close>.
\<close>

definition category_line :: "string list \<Rightarrow> nat \<Rightarrow> string option" where
  "category_line lines k = find (\<lambda>line. contains (post_marker k) line) lines"

definition category_of_line :: "string list \<Rightarrow> string \<Rightarrow> string" where
  "category_of_line categories post_line =
     (case int_field post_line of
        Some cat_num \<Rightarrow>
          if 1 \<le> cat_num \<and> cat_num \<le> int (length categories)
          then categories ! nat (cat_num - 1)
          else ''Uncategorized''
      | None \<Rightarrow> ''Uncategorized'')"

fun parse_categories :: "string list \<Rightarrow> string list \<Rightarrow> nat \<Rightarrow> post list \<Rightarrow> string list" where
  "parse_categories categories lines i [] = []"
| "parse_categories categories lines i (p # ps) =
     (case category_line lines (i + 1) of
        None \<Rightarrow> ''Uncategorized''
      | Some post_line \<Rightarrow> category_of_line categories post_line)
     # parse_categories categories lines (Suc i) ps"

definition categorize_batch ::
  "service \<Rightarrow> post list \<Rightarrow> string list \<Rightarrow> nat world \<Rightarrow> (error + string list) \<times> nat world" where
  "categorize_batch orc posts categories w =
     (case gateway orc w of
        (Inl e, w') \<Rightarrow> (Inl e, w')
      | (Inr result, w') \<Rightarrow>
          (Inr (parse_categories categories (split_on CHR 0x0A result) 0 posts), w'))"



section \<open>Clustering engine\<close>

subsection \<open>Direct clustering\<close>

text \<open>
  What Python does with the decoded value. \<open>json_iter\<close> is iteration (\<^verbatim>\<open>for x in v\<close>): a
  list yields its elements, a string its characters, a dict its keys, anything else
  raises \<^verbatim>\<open>TypeError\<close>. \<open>json_index\<close> is the value of an element under the
  comparison \<^verbatim>\<open>0 <= i < num_posts\<close>: an integer, a boolean as 0 or 1, and \<^verbatim>\<open>TypeError\<close>
  for everything else.
\<close>

fun json_iter :: "json \<Rightarrow> error + json list" where
  "json_iter (JArr xs) = Inr xs"
| "json_iter (JStr s) = Inr (map (\<lambda>c. JStr [c]) s)"
| "json_iter (JObj kvs) = Inr (map JStr (rev (remdups (rev (map fst kvs)))))"
| "json_iter v = Inl TypeError"

fun json_index :: "json \<Rightarrow> error + int" where
  "json_index (JInt i) = Inr i"
| "json_index (JBool b) = Inr (if b then 1 else 0)"
| "json_index v = Inl TypeError"

text \<open>
  \<^verbatim>\<open>valid_indices = [i for i in indices if 0 <= i < num_posts and i not in seen_indices]\<close>.
  The set of seen indices is fixed while one proposed cluster is filtered.
\<close>

fun valid_indices :: "nat \<Rightarrow> nat set \<Rightarrow> json list \<Rightarrow> error + nat list" where
  "valid_indices num_posts seen [] = Inr []"
| "valid_indices num_posts seen (x # xs) =
     (case json_index x of
        Inl e \<Rightarrow> Inl e
      | Inr i \<Rightarrow>
          (case valid_indices num_posts seen xs of
             Inl e \<Rightarrow> Inl e
           | Inr r \<Rightarrow>
               Inr (if 0 \<le> i \<and> i < int num_posts \<and> nat i \<notin> seen then nat i # r else r)))"

text \<open>
  The loop \<^verbatim>\<open>for indices in clusters_array\<close>; its state is the cluster map, the set of
  seen indices and \<^verbatim>\<open>next_cluster_id\<close>.
\<close>

fun form_clusters ::
  "nat \<Rightarrow> int \<Rightarrow> json list \<Rightarrow> clusters \<times> nat set \<times> nat \<Rightarrow> error + clusters \<times> nat set \<times> nat" where
  "form_clusters num_posts min_cluster_size [] acc = Inr acc"
| "form_clusters num_posts min_cluster_size (indices # rest) (cl, seen, next_cluster_id) =
     (case json_iter indices of
        Inl e \<Rightarrow> Inl e
      | Inr elems \<Rightarrow>
          (case valid_indices num_posts seen elems of
             Inl e \<Rightarrow> Inl e
           | Inr valid \<Rightarrow>
               if min_cluster_size \<le> int (length valid)
               then form_clusters num_posts min_cluster_size rest
                      (dict_set next_cluster_id valid cl, seen \<union> set valid, next_cluster_id + 1)
               else form_clusters num_posts min_cluster_size rest (cl, seen, next_cluster_id)))"

text \<open>
  \<^verbatim>\<open>max(clusters.keys(), key=lambda k: len(clusters[k]))\<close>: the first key, in insertion
  order, whose list is longest; \<^verbatim>\<open>ValueError\<close> on an empty dict.
\<close>

fun max_by_len :: "nat \<times> nat list \<Rightarrow> clusters \<Rightarrow> nat \<times> nat list" where
  "max_by_len best [] = best"
| "max_by_len best (c # cs) =
     max_by_len (if length (snd best) < length (snd c) then c else best) cs"

definition largest_key :: "clusters \<Rightarrow> error + nat" where
  "largest_key cl = (case cl of [] \<Rightarrow> Inl ValueError | c # cs \<Rightarrow> Inr (fst (max_by_len c cs)))"

text \<open>
  The end of \<^verbatim>\<open>_cluster_initial_sample\<close>: the indices no cluster claimed go to the largest
  cluster, or to a new cluster 0 when there is none, and an empty map is replaced by the
  single cluster of all indices.
\<close>

definition handle_missing :: "nat \<Rightarrow> clusters \<Rightarrow> nat set \<Rightarrow> clusters" where
  "handle_missing num_posts cl seen =
     (let missing_indices = filter (\<lambda>i. i \<notin> seen) [0..<num_posts];
          cl' = (if missing_indices \<noteq> []
                 then (case largest_key cl of
                         Inr largest_cluster \<Rightarrow> dict_extend largest_cluster missing_indices cl
                       | Inl e \<Rightarrow> dict_set 0 [0..<num_posts] cl)
                 else cl)
      in if cl' \<noteq> [] then cl' else [(0, [0..<num_posts])])"

definition cluster_array :: "nat \<Rightarrow> int \<Rightarrow> json \<Rightarrow> error + clusters" where
  "cluster_array num_posts min_cluster_size clusters_array =
     (case json_iter clusters_array of
        Inl e \<Rightarrow> Inl e
      | Inr proposed \<Rightarrow>
          (case form_clusters num_posts min_cluster_size proposed ([], {}, 0) of
             Inl e \<Rightarrow> Inl e
           | Inr (cl, seen, next_cluster_id) \<Rightarrow> Inr (handle_missing num_posts cl seen)))"

text \<open>
  \<^verbatim>\<open>json.loads\<close> is a parameter: \<open>loads s\<close> is the decoded value, \<open>None\<close> when the text is
  not JSON.
\<close>

definition cluster_response ::
  "(string \<Rightarrow> json option) \<Rightarrow> nat \<Rightarrow> int \<Rightarrow> string \<Rightarrow> error + clusters" where
  "cluster_response loads num_posts min_cluster_size result =
     (case loads (strip (replace_all ''```'' [] (replace_all ''```json'' [] result))) of
        None \<Rightarrow> Inl JSONDecodeError
      | Some clusters_array \<Rightarrow> cluster_array num_posts min_cluster_size clusters_array)"

definition cluster_initial_sample ::
  "service \<Rightarrow> (string \<Rightarrow> json option) \<Rightarrow> post list \<Rightarrow> int \<Rightarrow> nat world
     \<Rightarrow> (error + clusters) \<times> nat world" where
  "cluster_initial_sample orc loads posts min_cluster_size w =
     (case gateway orc w of
        (Inl e, w') \<Rightarrow> (Inl e, w')
      | (Inr result, w') \<Rightarrow> (cluster_response loads (length posts) min_cluster_size result, w'))"

subsection \<open>Theme extraction and incremental assignment\<close>

text \<open>\<^verbatim>\<open>_extract_cluster_themes\<close>: one gateway call per cluster, a failure propagates.\<close>

fun extract_cluster_themes ::
  "service \<Rightarrow> clusters \<Rightarrow> nat world \<Rightarrow> (error + (nat, string) dict) \<times> nat world" where
  "extract_cluster_themes orc [] w = (Inr [], w)"
| "extract_cluster_themes orc ((cluster_id, indices) # rest) w =
     (case gateway orc w of
        (Inl e, w') \<Rightarrow> (Inl e, w')
      | (Inr theme, w') \<Rightarrow>
          (case extract_cluster_themes orc rest w' of
             (Inl e, w'') \<Rightarrow> (Inl e, w'')
           | (Inr themes, w'') \<Rightarrow> (Inr ((cluster_id, theme) # themes), w'')))"

text \<open>
  The scan \<^verbatim>\<open>for line in lines\<close> of one record in \<^verbatim>\<open>_assign_posts_to_clusters\<close>: the
  cluster named by the first line that contains the record's marker, parses, and names a
  key of the cluster map; \<open>None\<close> when the scan ends with \<^verbatim>\<open>assigned = False\<close>.
\<close>

fun scan_lines :: "string list \<Rightarrow> nat \<Rightarrow> clusters \<Rightarrow> nat option" where
  "scan_lines [] post_idx cl = None"
| "scan_lines (line # rest) post_idx cl =
     (if contains (post_marker post_idx) line
      then (case int_field line of
              Some cluster_num \<Rightarrow>
                if 0 \<le> cluster_num \<and> nat cluster_num \<in> set (map fst cl)
                then Some (nat cluster_num)
                else scan_lines rest post_idx cl
            | None \<Rightarrow> scan_lines rest post_idx cl)
      else scan_lines rest post_idx cl)"

text \<open>One record of the loop \<^verbatim>\<open>for j, p in enumerate(batch)\<close>, and the loop.\<close>

definition assign_record :: "string list \<Rightarrow> nat \<Rightarrow> clusters \<Rightarrow> error + clusters" where
  "assign_record lines post_idx cl =
     (case scan_lines lines post_idx cl of
        Some cluster_num \<Rightarrow> Inr (dict_extend cluster_num [post_idx] cl)
      | None \<Rightarrow>
          (case largest_key cl of
             Inl e \<Rightarrow> Inl e
           | Inr largest \<Rightarrow> Inr (dict_extend largest [post_idx] cl)))"

fun assign_records :: "string list \<Rightarrow> nat \<Rightarrow> post list \<Rightarrow> clusters \<Rightarrow> error + clusters" where
  "assign_records lines post_idx [] cl = Inr cl"
| "assign_records lines post_idx (p # ps) cl =
     (case assign_record lines post_idx cl of
        Inl e \<Rightarrow> Inl e
      | Inr cl' \<Rightarrow> assign_records lines (Suc post_idx) ps cl')"

text \<open>
  The \<^verbatim>\<open>except\<close> branch of a sub-batch: the largest cluster is taken once and the whole
  sub-batch is appended to it. A \<^verbatim>\<open>ValueError\<close> of \<^verbatim>\<open>max\<close> inside the \<^verbatim>\<open>try\<close> can only
  come from an empty cluster map, before any append, so the handler sees the map as it
  was at the start of the sub-batch.
\<close>

definition assign_whole_batch :: "nat \<Rightarrow> nat \<Rightarrow> clusters \<Rightarrow> error + clusters" where
  "assign_whole_batch batch_start len cl =
     (case largest_key cl of
        Inl e \<Rightarrow> Inl e
      | Inr largest \<Rightarrow> Inr (dict_extend largest [batch_start..<batch_start + len] cl))"

fun assign_batches ::
  "service \<Rightarrow> nat \<Rightarrow> nat \<Rightarrow> nat \<Rightarrow> post list list \<Rightarrow> clusters \<Rightarrow> nat world
     \<Rightarrow> (error + clusters) \<times> nat world" where
  "assign_batches orc start_idx batch_size i [] cl w = (Inr cl, w)"
| "assign_batches orc start_idx batch_size i (batch # rest) cl w =
     (let batch_start = start_idx + i
      in case gateway orc w of
           (Inr result, w') \<Rightarrow>
             (case assign_records (split_on CHR 0x0A result) batch_start batch cl of
                Inr cl' \<Rightarrow> assign_batches orc start_idx batch_size (i + batch_size) rest cl' w'
              | Inl e \<Rightarrow>
                  (case assign_whole_batch batch_start (length batch) cl of
                     Inl e' \<Rightarrow> (Inl e', w')
                   | Inr cl' \<Rightarrow>
                       assign_batches orc start_idx batch_size (i + batch_size) rest cl' w'))
         | (Inl e, w') \<Rightarrow>
             (case assign_whole_batch batch_start (length batch) cl of
                Inl e' \<Rightarrow> (Inl e', w')
              | Inr cl' \<Rightarrow> assign_batches orc start_idx batch_size (i + batch_size) rest cl' w'))"

definition assign_posts_to_clusters ::
  "service \<Rightarrow> post list \<Rightarrow> clusters \<Rightarrow> nat \<Rightarrow> nat \<Rightarrow> nat world
     \<Rightarrow> (error + clusters) \<times> nat world" where
  "assign_posts_to_clusters orc posts cl start_idx batch_size w =
     assign_batches orc start_idx batch_size 0 (chunks batch_size posts) cl w"

subsection \<open>The two paths of \<^verbatim>\<open>llm_cluster_posts\<close>\<close>

definition INITIAL_SAMPLE_SIZE :: nat where
  "INITIAL_SAMPLE_SIZE = 100"

definition single_cluster :: "nat \<Rightarrow> clusters" where
  "single_cluster num_posts = [(0, [0..<num_posts])]"

definition no_clusters_msg :: string where
  "no_clusters_msg = ''No valid clusters formed, creating single cluster''"

definition llm_cluster_posts ::
  "service \<Rightarrow> (string \<Rightarrow> json option) \<Rightarrow> post list \<Rightarrow> int \<Rightarrow> nat world
     \<Rightarrow> clusters \<times> nat world" where
  "llm_cluster_posts orc loads posts min_cluster_size w =
     (let num_posts = length posts
      in if num_posts \<le> INITIAL_SAMPLE_SIZE
         then (case cluster_initial_sample orc loads posts min_cluster_size w of
                 (Inr cl, w') \<Rightarrow> (cl, w')
               | (Inl e, w') \<Rightarrow> (single_cluster num_posts, w'))
         else (case cluster_initial_sample orc loads (take INITIAL_SAMPLE_SIZE posts)
                      min_cluster_size w of
                 (Inl e, w1) \<Rightarrow> (single_cluster num_posts, w1)
               | (Inr cl, w1) \<Rightarrow>
                   if cl = []
                   then (single_cluster num_posts,
                         w1\<lparr>events := events w1 @ [Print no_clusters_msg]\<rparr>)
                   else (case extract_cluster_themes orc cl w1 of
                           (Inl e, w2) \<Rightarrow> (single_cluster num_posts, w2)
                         | (Inr cluster_themes, w2) \<Rightarrow>
                             (let remaining_posts = drop INITIAL_SAMPLE_SIZE posts
                              in if remaining_posts \<noteq> []
                                 then (case assign_posts_to_clusters orc remaining_posts cl
                                              INITIAL_SAMPLE_SIZE 30 w2 of
                                         (Inl e, w3) \<Rightarrow> (single_cluster num_posts, w3)
                                       | (Inr cl', w3) \<Rightarrow> (cl', w3))
                                 else (cl, w2)))))"

section \<open>Insight generation\<close>

text \<open>
  \<^verbatim>\<open>generate_single_insight\<close> and \<^verbatim>\<open>generate_category_insight\<close> build a prompt and
  return the gateway's answer; so does the per-cluster call inside the loop. The
  identifiers are \<^verbatim>\<open>f"{cat[:4].lower()}_{cluster_id+1:02}"\<close> and the same prefix with
  \<^verbatim>\<open>_01\<close>, \<^verbatim>\<open>_all\<close> or \<^verbatim>\<open>_fallback\<close>.
\<close>

definition id_prefix :: "string \<Rightarrow> string" where
  "id_prefix cat = lower (take 4 cat) @ ''_''"

definition pad2 :: "nat \<Rightarrow> string" where
  "pad2 n = (if n < 10 then CHR ''0'' # str_of_nat n else str_of_nat n)"

definition cluster_members :: "post list \<Rightarrow> nat list \<Rightarrow> post list" where
  "cluster_members cat_posts post_indices =
     map (\<lambda>i. cat_posts ! i) (filter (\<lambda>i. i < length cat_posts) post_indices)"

definition cluster_insight :: "string \<Rightarrow> nat \<Rightarrow> post list \<Rightarrow> string \<Rightarrow> insight" where
  "cluster_insight cat cluster_id cluster_posts insight_text =
     \<lparr>insight_id = id_prefix cat @ pad2 (cluster_id + 1), insight_category = cat,
      insight_summary = insight_text, linked_posts = map post_id cluster_posts,
      cluster_size = length cluster_posts\<rparr>"

definition category_insight :: "string \<Rightarrow> string \<Rightarrow> post list \<Rightarrow> string \<Rightarrow> insight" where
  "category_insight cat tag cat_posts insight_text =
     \<lparr>insight_id = id_prefix cat @ tag, insight_category = cat,
      insight_summary = insight_text, linked_posts = map post_id cat_posts,
      cluster_size = length cat_posts\<rparr>"

text \<open>The loop \<^verbatim>\<open>for cluster_id, post_indices in sorted(clusters.items())\<close>.\<close>

fun cluster_insights ::
  "service \<Rightarrow> string \<Rightarrow> post list \<Rightarrow> int \<Rightarrow> clusters \<Rightarrow> insight list \<Rightarrow> nat world
     \<Rightarrow> (error + insight list) \<times> nat world" where
  "cluster_insights orc cat cat_posts min_cluster_size [] cat_insights w = (Inr cat_insights, w)"
| "cluster_insights orc cat cat_posts min_cluster_size ((cluster_id, post_indices) # rest)
     cat_insights w =
     (let cluster_posts = cluster_members cat_posts post_indices
      in if int (length cluster_posts) < min_cluster_size
         then cluster_insights orc cat cat_posts min_cluster_size rest cat_insights w
         else (case gateway orc w of
                 (Inl e, w') \<Rightarrow> (Inl e, w')
               | (Inr insight_text, w') \<Rightarrow>
                   cluster_insights orc cat cat_posts min_cluster_size rest
                     (cat_insights @ [cluster_insight cat cluster_id cluster_posts insight_text])
                     w'))"

text \<open>
  The body of the \<^verbatim>\<open>try\<close> for one category with at least two records, then the whole
  treatment of one category: the single-record path, whose failure is not caught, and
  the \<^verbatim>\<open>except\<close> with its fallback insight.
\<close>

definition clustered_insights ::
  "service \<Rightarrow> (string \<Rightarrow> json option) \<Rightarrow> string \<Rightarrow> post list \<Rightarrow> int \<Rightarrow> nat world
     \<Rightarrow> (error + insight list) \<times> nat world" where
  "clustered_insights orc loads cat cat_posts min_cluster_size w =
     (case llm_cluster_posts orc loads cat_posts min_cluster_size w of
        (cl, w1) \<Rightarrow>
          (case cluster_insights orc cat cat_posts min_cluster_size (sort_key fst cl) [] w1 of
             (Inl e, w2) \<Rightarrow> (Inl e, w2)
           | (Inr cat_insights, w2) \<Rightarrow>
               if cat_insights = []
               then (case gateway orc w2 of
                       (Inl e, w3) \<Rightarrow> (Inl e, w3)
                     | (Inr insight_text, w3) \<Rightarrow>
                         (Inr [category_insight cat ''all'' cat_posts insight_text], w3))
               else (Inr cat_insights, w2)))"

definition category_insights ::
  "service \<Rightarrow> (string \<Rightarrow> json option) \<Rightarrow> string \<Rightarrow> post list \<Rightarrow> int \<Rightarrow> nat world
     \<Rightarrow> (error + insight list) \<times> nat world" where
  "category_insights orc loads cat cat_posts min_cluster_size w =
     (if length cat_posts < 2
      then (case gateway orc w of
              (Inl e, w') \<Rightarrow> (Inl e, w')
            | (Inr insight_text, w') \<Rightarrow>
                (Inr [\<lparr>insight_id = id_prefix cat @ ''01'', insight_category = cat,
                       insight_summary = insight_text,
                       linked_posts = [post_id (hd cat_posts)], cluster_size = 1\<rparr>], w'))
      else (case clustered_insights orc loads cat cat_posts min_cluster_size w of
              (Inr cat_insights, w') \<Rightarrow> (Inr cat_insights, w')
            | (Inl e, w') \<Rightarrow>
                (case gateway orc w' of
                   (Inr insight_text, w'') \<Rightarrow>
                     (Inr [category_insight cat ''fallback'' cat_posts insight_text], w'')
                 | (Inl e2, w'') \<Rightarrow> (Inr [], w''))))"



section \<open>The entry point\<close>





section \<open>Vocabulary of the clustering claims\<close>

text \<open>
  \<open>holders cl i\<close> lists the ids of the clusters of \<open>cl\<close> whose member list contains the
  index \<open>i\<close>, in the order of the map.
\<close>

definition holders :: "clusters \<Rightarrow> nat \<Rightarrow> nat list" where
  "holders cl i = map fst (filter (\<lambda>(k, vs). i \<in> set vs) cl)"

text \<open>
  \<open>kept_clusters cat_posts m cl\<close> lists, in the order of their ids, the clusters of \<open>cl\<close>
  whose member count in the category meets the floor \<open>m\<close>.
\<close>

definition kept_clusters :: "post list \<Rightarrow> int \<Rightarrow> clusters \<Rightarrow> clusters" where
  "kept_clusters cat_posts m cl =
     filter (\<lambda>(cid, idxs). m \<le> int (length (cluster_members cat_posts idxs)))
       (sort_key fst cl)"

section \<open>The retry wrapper\<close>

declare str_of_nat.simps [simp del]
declare chunks.simps [simp del]










section \<open>Facts about the string primitives\<close>

lemmas py_str_defs =
  strip_def py_isspace_def lower_def lower_char_def upper_chars_def lower_chars_def
  contains_def replace_all_def digit_chars_def is_digit_def digit_val_def py_int_def
  post_marker_def str_of_nat.simps int_field_def

lemmas gateway_defs = gateway_def safe_llm_call_def call_def upt_rec











section \<open>The summarization parser\<close>












section \<open>The categorization parser\<close>

lemma length_parse_categories:
  "length (parse_categories categories lines i posts) = length posts"
  by (induction posts arbitrary: i) auto

lemma nth_parse_categories:
  "j < length posts \<Longrightarrow>
   parse_categories categories lines i posts ! j =
     (case category_line lines (i + j + 1) of
        None \<Rightarrow> ''Uncategorized''
      | Some post_line \<Rightarrow> category_of_line categories post_line)"
proof (induction posts arbitrary: i j)
  case Nil
  then show ?case by simp
next
  case (Cons p ps)
  show ?case
  proof (cases j)
    case 0
    then show ?thesis by (simp split: option.splits)
  next
    case (Suc j')
    with Cons.prems have "j' < length ps" by simp
    from Cons.IH [OF this, of "Suc i"] Suc show ?thesis by (simp split: option.splits)
  qed
qed

lemma category_line_None:
  "category_line lines k = None \<longleftrightarrow> (\<forall>l \<in> set lines. \<not> contains (post_marker k) l)"
  by (auto simp: category_line_def find_None_iff)

text \<open>
  Claim C7. The parse of \<^verbatim>\<open>categorize_batch\<close> returns one category per record. A record
  gets \<^verbatim>\<open>Uncategorized\<close> when no line contains its marker, when the number of its line
  cannot be read, and when that number is below 1 or above the number of categories, so
  0 and \<^verbatim>\<open>len(categories) + 1\<close> are never taken for a neighbouring category; a number
  \<open>n\<close> within range selects the category at position \<open>n - 1\<close>.
\<close>

theorem categorize_batch_parse:
  "length (parse_categories categories lines 0 posts) = length posts
   \<and> (\<forall>j<length posts.
        ((\<forall>l\<in>set lines. \<not> contains (post_marker (j + 1)) l) \<longrightarrow>
           parse_categories categories lines 0 posts ! j = ''Uncategorized'')
      \<and> (\<forall>l. category_line lines (j + 1) = Some l \<longrightarrow>
            (int_field l = None \<longrightarrow>
               parse_categories categories lines 0 posts ! j = ''Uncategorized'')
          \<and> (\<forall>n. int_field l = Some n \<and> (n < 1 \<or> int (length categories) < n) \<longrightarrow>
               parse_categories categories lines 0 posts ! j = ''Uncategorized'')
          \<and> (\<forall>n. int_field l = Some n \<and> 1 \<le> n \<and> n \<le> int (length categories) \<longrightarrow>
               parse_categories categories lines 0 posts ! j = categories ! nat (n - 1))))
   \<and> (\<forall>result w'. gateway orc w = (Inr result, w') \<longrightarrow>
        categorize_batch orc posts categories w =
          (Inr (parse_categories categories (split_on CHR 0x0A result) 0 posts), w'))"
proof (intro conjI allI impI)
  show "length (parse_categories categories lines 0 posts) = length posts"
    by (rule length_parse_categories)
next
  fix j assume j: "j < length posts"
  assume "\<forall>l\<in>set lines. \<not> contains (post_marker (j + 1)) l"
  then have "category_line lines (j + 1) = None" by (simp add: category_line_None)
  then show "parse_categories categories lines 0 posts ! j = ''Uncategorized''"
    using nth_parse_categories [OF j, of categories lines 0] by simp
next
  fix j l assume j: "j < length posts" and "category_line lines (j + 1) = Some l"
    and "int_field l = None"
  then show "parse_categories categories lines 0 posts ! j = ''Uncategorized''"
    using nth_parse_categories [OF j, of categories lines 0]
    by (simp add: category_of_line_def)
next
  fix j l n assume j: "j < length posts" and "category_line lines (j + 1) = Some l"
    and "int_field l = Some n \<and> (n < 1 \<or> int (length categories) < n)"
  then show "parse_categories categories lines 0 posts ! j = ''Uncategorized''"
    using nth_parse_categories [OF j, of categories lines 0]
    by (auto simp: category_of_line_def)
next
  fix j l n assume j: "j < length posts" and "category_line lines (j + 1) = Some l"
    and "int_field l = Some n \<and> 1 \<le> n \<and> n \<le> int (length categories)"
  then show "parse_categories categories lines 0 posts ! j = categories ! nat (n - 1)"
    using nth_parse_categories [OF j, of categories lines 0]
    by (auto simp: category_of_line_def)
next
  fix result w' assume "gateway orc w = (Inr result, w')"
  then show "categorize_batch orc posts categories w =
          (Inr (parse_categories categories (split_on CHR 0x0A result) 0 posts), w')"
    by (simp add: categorize_batch_def)
qed

text \<open>
  Four categories and five records: the numbers 0 and 5 are out of range, 4 selects the
  fourth category, the fourth line has no number and the fifth record has no line.
\<close>

theorem categorize_batch_parse_witness:
  "category_line [''POST_1: 0'', ''POST_2: 5'', ''POST_3: 4'', ''POST_4: x''] (0 + 1) =
       Some ''POST_1: 0''
   \<and> int_field ''POST_1: 0'' = Some 0
   \<and> int_field ''POST_2: 5'' = Some (int (length FIXED_CATEGORIES) + 1)
   \<and> int_field ''POST_4: x'' = None
   \<and> \<not> contains (post_marker (4 + 1)) ''POST_4: x''
   \<and> parse_categories FIXED_CATEGORIES [''POST_1: 0'', ''POST_2: 5'', ''POST_3: 4'', ''POST_4: x''] 0
       [\<lparr>post_id = ''a'', title = ''T1'', summary = [], sentiment = [], category = []\<rparr>,
        \<lparr>post_id = ''b'', title = ''T2'', summary = [], sentiment = [], category = []\<rparr>,
        \<lparr>post_id = ''c'', title = ''T3'', summary = [], sentiment = [], category = []\<rparr>,
        \<lparr>post_id = ''d'', title = ''T4'', summary = [], sentiment = [], category = []\<rparr>,
        \<lparr>post_id = ''e'', title = ''T5'', summary = [], sentiment = [], category = []\<rparr>] =
       [''Uncategorized'', ''Uncategorized'', ''Experience Friction'', ''Uncategorized'',
        ''Uncategorized'']
   \<and> categorize_batch (\<lambda>n. Inr ''POST_1: 0'')
       [\<lparr>post_id = ''a'', title = ''T1'', summary = [], sentiment = [], category = []\<rparr>]
       FIXED_CATEGORIES \<lparr>inner = 0, events = []\<rparr> =
       (Inr [''Uncategorized''], \<lparr>inner = 1, events = [Invoke]\<rparr>)"
proof -
  let ?L = "[''POST_1: 0'', ''POST_2: 5'', ''POST_3: 4'', ''POST_4: x'']"
  let ?a = "\<lparr>post_id = ''a'', title = ''T1'', summary = [], sentiment = [], category = []\<rparr>"
  let ?P = "[?a,
        \<lparr>post_id = ''b'', title = ''T2'', summary = [], sentiment = [], category = []\<rparr>,
        \<lparr>post_id = ''c'', title = ''T3'', summary = [], sentiment = [], category = []\<rparr>,
        \<lparr>post_id = ''d'', title = ''T4'', summary = [], sentiment = [], category = []\<rparr>,
        \<lparr>post_id = ''e'', title = ''T5'', summary = [], sentiment = [], category = []\<rparr>]"
  let ?R = "[''Uncategorized'', ''Uncategorized'', ''Experience Friction'', ''Uncategorized'',
        ''Uncategorized'']"
  note T = categorize_batch_parse [where categories = FIXED_CATEGORIES and lines = ?L
      and posts = ?P]
  have l0: "category_line ?L (0 + 1) = Some ''POST_1: 0''"
    and l1: "category_line ?L (1 + 1) = Some ''POST_2: 5''"
    and l2: "category_line ?L (2 + 1) = Some ''POST_3: 4''"
    and l3: "category_line ?L (3 + 1) = Some ''POST_4: x''"
    by (simp_all add: category_line_def py_str_defs)
  have l4: "\<forall>l\<in>set ?L. \<not> contains (post_marker (4 + 1)) l"
    by (simp add: py_str_defs)
  have f0: "int_field ''POST_1: 0'' = Some 0"
    and f1: "int_field ''POST_2: 5'' = Some (int (length FIXED_CATEGORIES) + 1)"
    and f2: "int_field ''POST_3: 4'' = Some 4"
    and f3: "int_field ''POST_4: x'' = None"
    by (simp_all add: py_str_defs FIXED_CATEGORIES_def)
  have lp: "0 < length ?P" "1 < length ?P" "2 < length ?P" "3 < length ?P" "4 < length ?P"
    by simp_all
  have r0: "(0::int) < 1 \<or> int (length FIXED_CATEGORIES) < 0" by simp
  have r1: "int (length FIXED_CATEGORIES) + 1 < 1 \<or>
            int (length FIXED_CATEGORIES) < int (length FIXED_CATEGORIES) + 1" by simp
  have r2: "(1::int) \<le> 4 \<and> 4 \<le> int (length FIXED_CATEGORIES)"
    by (simp add: FIXED_CATEGORIES_def)
  from T have len: "length (parse_categories FIXED_CATEGORIES ?L 0 ?P) = length ?P"
    by blast
  from T lp(1) l0 f0 r0
  have e0: "parse_categories FIXED_CATEGORIES ?L 0 ?P ! 0 = ''Uncategorized''"
    by blast
  from T lp(2) l1 f1 r1
  have e1: "parse_categories FIXED_CATEGORIES ?L 0 ?P ! 1 = ''Uncategorized''"
    by blast
  from T lp(3) l2 f2 r2
  have "parse_categories FIXED_CATEGORIES ?L 0 ?P ! 2 = FIXED_CATEGORIES ! nat (4 - 1)"
    by blast
  then have e2: "parse_categories FIXED_CATEGORIES ?L 0 ?P ! 2 = ''Experience Friction''"
    by (simp add: FIXED_CATEGORIES_def)
  from T lp(4) l3 f3
  have e3: "parse_categories FIXED_CATEGORIES ?L 0 ?P ! 3 = ''Uncategorized''"
    by blast
  from T lp(5) l4
  have e4: "parse_categories FIXED_CATEGORIES ?L 0 ?P ! 4 = ''Uncategorized''"
    by blast
  have all: "parse_categories FIXED_CATEGORIES ?L 0 ?P = ?R"
    using len e0 e1 e2 e3 e4
    by (intro nth_equalityI) (auto simp: less_Suc_eq numeral_3_eq_3 eval_nat_numeral)
  from l4 have n4: "\<not> contains (post_marker (4 + 1)) ''POST_4: x''" by simp
  let ?w0 = "\<lparr>inner = 0::nat, events = []\<rparr>"
  let ?w1 = "\<lparr>inner = 1::nat, events = [Invoke]\<rparr>"
  note U = categorize_batch_parse [where categories = FIXED_CATEGORIES
      and lines = "[''POST_1: 0'']" and posts = "[?a]" and orc = "\<lambda>n. Inr ''POST_1: 0''"
      and w = ?w0]
  have g: "gateway (\<lambda>n. Inr ''POST_1: 0'') ?w0 = (Inr ''POST_1: 0'', ?w1)"
    by (simp add: gateway_defs py_str_defs)
  from U g have "categorize_batch (\<lambda>n. Inr ''POST_1: 0'') [?a] FIXED_CATEGORIES ?w0 =
      (Inr (parse_categories FIXED_CATEGORIES (split_on CHR 0x0A ''POST_1: 0'') 0 [?a]), ?w1)"
    by blast
  then have cb: "categorize_batch (\<lambda>n. Inr ''POST_1: 0'') [?a] FIXED_CATEGORIES ?w0 =
      (Inr [''Uncategorized''], ?w1)"
    by (simp add: category_line_def category_of_line_def FIXED_CATEGORIES_def py_str_defs)
  from l0 f0 f1 f3 n4 all cb show ?thesis by blast
qed

section \<open>Direct clustering: cluster ids\<close>

lemmas cluster_defs =
  cluster_initial_sample_def cluster_response_def cluster_array_def handle_missing_def
  largest_key_def dict_set_def dict_extend_def




lemma length_dict_extend: "length (dict_extend k xs d) = length d"
  by (simp add: dict_extend_def)

lemma largest_key_Cons: "largest_key (c # cs) = Inr (fst (max_by_len c cs))"
  by (simp add: largest_key_def)

lemma handle_missing_empty: "handle_missing n [] seen = [(0, [0..<n])]"
  by (auto simp: handle_missing_def Let_def largest_key_def dict_set_def)

lemma handle_missing_Cons:
  "handle_missing n (c # cs) seen =
     (if filter (\<lambda>i. i \<notin> seen) [0..<n] \<noteq> []
      then dict_extend (fst (max_by_len c cs)) (filter (\<lambda>i. i \<notin> seen) [0..<n]) (c # cs)
      else c # cs)"
proof -
  have "dict_extend k xs (c # cs) \<noteq> []" for k and xs :: "nat list"
    by (simp add: dict_extend_def)
  then show ?thesis
    by (simp add: handle_missing_def Let_def largest_key_Cons)
qed



lemma handle_missing_nonempty: "handle_missing n cl seen \<noteq> []"
  by (auto simp: handle_missing_def Let_def)




lemma cluster_initial_sample_Inr:
  assumes "cluster_initial_sample orc loads posts m w = (Inr cl, w')"
  obtains result where "gateway orc w = (Inr result, w')"
    and "cluster_response loads (length posts) m result = Inr cl"
  using assms
  by (auto simp: cluster_initial_sample_def split: prod.splits sum.splits)



section \<open>Direct clustering: at least one cluster\<close>

lemma cluster_array_nonempty: "cluster_array n m arr = Inr cl \<Longrightarrow> cl \<noteq> []"
  by (auto simp: cluster_array_def handle_missing_nonempty split: sum.splits)

lemma cluster_response_nonempty: "cluster_response loads n m result = Inr cl \<Longrightarrow> cl \<noteq> []"
  by (auto simp: cluster_response_def split: option.splits dest: cluster_array_nonempty)

lemma cluster_initial_sample_nonempty:
  "cluster_initial_sample orc loads posts m w = (Inr cl, w') \<Longrightarrow> cl \<noteq> []"
  by (erule cluster_initial_sample_Inr) (rule cluster_response_nonempty)

lemma safe_llm_loop_no_print:
  "Print msg \<notin> set (events w) \<Longrightarrow>
   Print msg \<notin> set (events (snd (safe_llm_loop fn retries delay xs w)))"
proof (induction xs arbitrary: w)
  case Nil
  then show ?case by simp
next
  case (Cons i xs)
  obtain r s where f: "fn (inner w) = (r, s)" by (cases "fn (inner w)")
  show ?case
  proof (cases r)
    case (Inr v)
    with f Cons.prems show ?thesis by simp
  next
    case (Inl e)
    show ?thesis
    proof (cases "int i < retries - 1")
      case True
      have "Print msg \<notin> set (events \<lparr>inner = s,
               events = events w @ [Invoke, Sleep (delay * 2 ^ i)]\<rparr>)"
        using Cons.prems by simp
      from Cons.IH [OF this] True f Inl show ?thesis by simp
    next
      case False
      with f Inl Cons.prems show ?thesis by simp
    qed
  qed
qed

lemma gateway_no_print:
  assumes "gateway orc w = (r, w')" and "Print msg \<notin> set (events w)"
  shows "Print msg \<notin> set (events w')"
proof -
  have "w' = snd (safe_llm_call (call orc) 3 3 w)"
    using assms(1) by (auto simp: gateway_def split: prod.splits sum.splits option.splits)
  then show ?thesis
    using safe_llm_loop_no_print [OF assms(2)] by (simp add: safe_llm_call_def)
qed

lemma cluster_initial_sample_no_print:
  assumes "cluster_initial_sample orc loads posts m w = (r, w')"
    and "Print msg \<notin> set (events w)"
  shows "Print msg \<notin> set (events w')"
proof -
  obtain r0 where "gateway orc w = (r0, w')"
    using assms(1) by (auto simp: cluster_initial_sample_def split: prod.splits sum.splits)
  then show ?thesis using assms(2) by (rule gateway_no_print)
qed

lemma extract_cluster_themes_no_print:
  "extract_cluster_themes orc cl w = (r, w') \<Longrightarrow> Print msg \<notin> set (events w) \<Longrightarrow>
   Print msg \<notin> set (events w')"
proof (induction cl arbitrary: w r w')
  case Nil
  then show ?case by simp
next
  case (Cons c cl)
  obtain cid idxs where c: "c = (cid, idxs)" by (cases c)
  obtain g w1 where g: "gateway orc w = (g, w1)" by (cases "gateway orc w")
  have n1: "Print msg \<notin> set (events w1)" using g Cons.prems(2) by (rule gateway_no_print)
  show ?case
  proof (cases g)
    case (Inl e)
    with Cons.prems(1) c g n1 show ?thesis by simp
  next
    case (Inr theme)
    obtain r2 w2 where e: "extract_cluster_themes orc cl w1 = (r2, w2)"
      by (cases "extract_cluster_themes orc cl w1")
    from Cons.IH [OF e n1] have "Print msg \<notin> set (events w2)" .
    with Cons.prems(1) c g Inr e show ?thesis by (auto split: sum.splits)
  qed
qed

lemma assign_batches_no_print:
  "assign_batches orc start bs i batches cl w = (r, w') \<Longrightarrow> Print msg \<notin> set (events w) \<Longrightarrow>
   Print msg \<notin> set (events w')"
proof (induction batches arbitrary: i cl w r)
  case Nil
  then show ?case by simp
next
  case (Cons b batches)
  obtain g w1 where g: "gateway orc w = (g, w1)" by (cases "gateway orc w")
  have n1: "Print msg \<notin> set (events w1)" using g Cons.prems(2) by (rule gateway_no_print)
  have step: "\<And>i cl r. assign_batches orc start bs i batches cl w1 = (r, w') \<Longrightarrow>
      Print msg \<notin> set (events w')"
    using Cons.IH n1 by blast
  from Cons.prems(1) g n1 step show ?case
    by (auto simp: Let_def split: sum.splits)
qed

lemma llm_cluster_posts_no_print:
  assumes "Print no_clusters_msg \<notin> set (events w)"
  shows "Print no_clusters_msg \<notin> set (events (snd (llm_cluster_posts orc loads posts m w)))"
proof (cases "length posts \<le> INITIAL_SAMPLE_SIZE")
  case True
  obtain r w1 where c: "cluster_initial_sample orc loads posts m w = (r, w1)"
    by (cases "cluster_initial_sample orc loads posts m w")
  from cluster_initial_sample_no_print [OF c assms] True c show ?thesis
    by (auto simp: llm_cluster_posts_def Let_def split: sum.splits)
next
  case False
  obtain r w1 where c: "cluster_initial_sample orc loads (take INITIAL_SAMPLE_SIZE posts) m w = (r, w1)"
    by (cases "cluster_initial_sample orc loads (take INITIAL_SAMPLE_SIZE posts) m w")
  have n1: "Print no_clusters_msg \<notin> set (events w1)"
    using c assms by (rule cluster_initial_sample_no_print)
  show ?thesis
  proof (cases r)
    case (Inl e)
    with False c n1 show ?thesis by (simp add: llm_cluster_posts_def Let_def)
  next
    case (Inr cl)
    with c have ne: "cl \<noteq> []" by (auto dest: cluster_initial_sample_nonempty)
    obtain r2 w2 where e: "extract_cluster_themes orc cl w1 = (r2, w2)"
      by (cases "extract_cluster_themes orc cl w1")
    have n2: "Print no_clusters_msg \<notin> set (events w2)"
      using e n1 by (rule extract_cluster_themes_no_print)
    show ?thesis
    proof (cases r2)
      case (Inl e2)
      with False c Inr ne e n2 show ?thesis by (simp add: llm_cluster_posts_def Let_def)
    next
      case Inr2: (Inr themes)
      obtain r3 w3 where a: "assign_posts_to_clusters orc (drop INITIAL_SAMPLE_SIZE posts) cl
              INITIAL_SAMPLE_SIZE 30 w2 = (r3, w3)"
        by (cases "assign_posts_to_clusters orc (drop INITIAL_SAMPLE_SIZE posts) cl
              INITIAL_SAMPLE_SIZE 30 w2")
      then have n3: "Print no_clusters_msg \<notin> set (events w3)"
        using n2 by (auto simp: assign_posts_to_clusters_def dest: assign_batches_no_print)
      from False c Inr ne e Inr2 a n2 n3 show ?thesis
        by (auto simp: llm_cluster_posts_def Let_def split: sum.splits)
    qed
  qed
qed

text \<open>
  Claim C10. When \<^verbatim>\<open>_cluster_initial_sample\<close> returns, its cluster map is not empty;
  when the loop accepted no cluster, the map is the single cluster 0 with all indices of
  the sample. So \<^verbatim>\<open>llm_cluster_posts\<close> never takes the branch that prints
  "No valid clusters formed": the message is not in the log after the call.
\<close>

theorem direct_clustering_nonempty:
  "(cluster_initial_sample orc loads posts m w = (Inr cl, w') \<longrightarrow> cl \<noteq> [])
   \<and> (json_iter arr = Inr props \<and>
        form_clusters n m props ([], {}, 0) = Inr ([], seen, next_id) \<longrightarrow>
        cluster_array n m arr = Inr [(0, [0..<n])])
   \<and> (Print no_clusters_msg \<notin> set (events w) \<longrightarrow>
        Print no_clusters_msg \<notin> set (events (snd (llm_cluster_posts orc loads posts m w))))"
proof (intro conjI impI)
  assume "cluster_initial_sample orc loads posts m w = (Inr cl, w')"
  then show "cl \<noteq> []" by (rule cluster_initial_sample_nonempty)
next
  assume "json_iter arr = Inr props \<and>
        form_clusters n m props ([], {}, 0) = Inr ([], seen, next_id)"
  then show "cluster_array n m arr = Inr [(0, [0..<n])]"
    by (simp add: cluster_array_def handle_missing_empty)
next
  assume "Print no_clusters_msg \<notin> set (events w)"
  then show "Print no_clusters_msg \<notin> set (events (snd (llm_cluster_posts orc loads posts m w)))"
    by (rule llm_cluster_posts_no_print)
qed

text \<open>
  An empty JSON array for two records: the result is the synthetic cluster 0.
\<close>

theorem direct_clustering_nonempty_witness:
  "cluster_initial_sample (\<lambda>n. Inr ''[]'') (map_of [(''[]'', JArr [])])
      [\<lparr>post_id = ''a'', title = ''T1'', summary = [], sentiment = [], category = []\<rparr>,
       \<lparr>post_id = ''b'', title = ''T2'', summary = [], sentiment = [], category = []\<rparr>]
      2 \<lparr>inner = 0, events = []\<rparr> =
     (Inr [(0, [0, 1])], \<lparr>inner = 1, events = [Invoke]\<rparr>)
   \<and> [(0::nat, [0::nat, 1])] \<noteq> []
   \<and> form_clusters 2 2 [] ([], {}, 0) = Inr ([], {}, 0)
   \<and> cluster_array 2 2 (JArr []) = Inr [(0, [0..<2])]
   \<and> Print no_clusters_msg \<notin> set (events (snd (llm_cluster_posts (\<lambda>n. Inr ''[]'')
        (map_of [(''[]'', JArr [])])
        [\<lparr>post_id = ''a'', title = ''T1'', summary = [], sentiment = [], category = []\<rparr>,
         \<lparr>post_id = ''b'', title = ''T2'', summary = [], sentiment = [], category = []\<rparr>]
        2 \<lparr>inner = 0, events = []\<rparr>)))"
proof -
  let ?L = "map_of [(''[]'', JArr [])]"
  let ?P = "[\<lparr>post_id = ''a'', title = ''T1'', summary = [], sentiment = [], category = []\<rparr>,
       \<lparr>post_id = ''b'', title = ''T2'', summary = [], sentiment = [], category = []\<rparr>]"
  let ?w = "\<lparr>inner = 0::nat, events = []\<rparr>"
  let ?w' = "\<lparr>inner = 1::nat, events = [Invoke]\<rparr>"
  note T = direct_clustering_nonempty [where orc = "\<lambda>n. Inr ''[]''" and loads = ?L
      and posts = ?P and m = 2 and w = ?w and cl = "[(0, [0, 1])]" and w' = ?w'
      and arr = "JArr []" and props = "[]" and n = 2 and seen = "{}" and next_id = 0]
  have g: "gateway (\<lambda>n. Inr ''[]'') ?w = (Inr ''[]'', ?w')"
    by (simp add: gateway_defs py_str_defs)
  have e: "cluster_initial_sample (\<lambda>n. Inr ''[]'') ?L ?P 2 ?w = (Inr [(0, [0, 1])], ?w')"
    using g by (simp add: cluster_defs py_str_defs upt_rec)
  have f: "json_iter (JArr []) = Inr [] \<and> form_clusters 2 2 [] ([], {}, 0) = Inr ([], {}, 0)"
    by simp
  have p: "Print no_clusters_msg \<notin> set (events ?w)" by simp
  from T e have "[(0::nat, [0::nat, 1])] \<noteq> []" by blast
  moreover from T f have "cluster_array 2 2 (JArr []) = Inr [(0, [0..<2])]" by blast
  moreover from T p have "Print no_clusters_msg \<notin> set (events (snd (llm_cluster_posts
      (\<lambda>n. Inr ''[]'') ?L ?P 2 ?w)))" by blast
  ultimately show ?thesis using e f by blast
qed

section \<open>Direct clustering: who keeps an index\<close>

lemma valid_indices_set:
  "valid_indices n seen elems = Inr v \<Longrightarrow> set v \<subseteq> {..<n} - seen"
proof (induction elems arbitrary: v)
  case Nil
  then show ?case by simp
next
  case (Cons x xs)
  from Cons.prems obtain i where i: "json_index x = Inr i"
    by (cases "json_index x") auto
  from Cons.prems i obtain r where r: "valid_indices n seen xs = Inr r"
    by (cases "valid_indices n seen xs") auto
  from Cons.IH [OF r] have "set r \<subseteq> {..<n} - seen" .
  with Cons.prems i r show ?case by (auto split: if_splits)
qed

lemma holders_append: "holders (cl @ cl') i = holders cl i @ holders cl' i"
  by (simp add: holders_def)

lemma holders_dict_extend:
  "holders (dict_extend k xs cl) i =
     map fst (filter (\<lambda>(k', vs). i \<in> set vs \<or> (k' = k \<and> i \<in> set xs)) cl)"
  by (induction cl) (auto simp: holders_def dict_extend_def split: if_splits)

lemma holders_dict_extend_other:
  "i \<notin> set xs \<Longrightarrow> holders (dict_extend k xs cl) i = holders cl i"
  unfolding holders_dict_extend by (simp add: holders_def)

lemma filter_key_distinct:
  "distinct (map fst cl) \<Longrightarrow> k \<in> set (map fst cl) \<Longrightarrow>
   map fst (filter (\<lambda>(k', vs). k' = k) cl) = [k]"
proof (induction cl)
  case Nil
  then show ?case by simp
next
  case (Cons c cl)
  obtain k' vs where c: "c = (k', vs)" by (cases c)
  show ?case
  proof (cases "k' = k")
    case True
    with Cons.prems(1) c have "k \<notin> set (map fst cl)" by simp
    then have "filter (\<lambda>(k', vs). k' = k) cl = []"
      by (force simp: filter_empty_conv)
    with True c show ?thesis by simp
  next
    case False
    with Cons c show ?thesis by simp
  qed
qed

lemma holders_dict_extend_new:
  assumes "distinct (map fst cl)" "k \<in> set (map fst cl)" "holders cl i = []" "i \<in> set xs"
  shows "holders (dict_extend k xs cl) i = [k]"
proof -
  from assms(3) have "\<forall>(k', vs) \<in> set cl. i \<notin> set vs"
    by (auto simp: holders_def filter_empty_conv)
  then have "filter (\<lambda>(k', vs). i \<in> set vs \<or> (k' = k \<and> i \<in> set xs)) cl =
             filter (\<lambda>(k', vs). k' = k) cl"
    using assms(4) by (intro filter_cong) auto
  then show ?thesis
    using filter_key_distinct [OF assms(1,2)] by (simp add: holders_dict_extend)
qed

lemma max_by_len_mem: "max_by_len b cs \<in> set (b # cs)"
  by (induction cs arbitrary: b) (auto split: if_splits)

lemma largest_key_mem: "largest_key cl = Inr k \<Longrightarrow> k \<in> set (map fst cl)"
proof (cases cl)
  case Nil
  assume "largest_key cl = Inr k"
  with Nil show ?thesis by (simp add: largest_key_def)
next
  case (Cons c cs)
  assume "largest_key cl = Inr k"
  with Cons have "k = fst (max_by_len c cs)" by (simp add: largest_key_def)
  with max_by_len_mem [of c cs] Cons show ?thesis by auto
qed

lemma form_clusters_append:
  "form_clusters n m (xs @ ys) acc =
     (case form_clusters n m xs acc of Inl e \<Rightarrow> Inl e | Inr acc' \<Rightarrow> form_clusters n m ys acc')"
proof (induction xs arbitrary: acc)
  case Nil
  show ?case by simp
next
  case (Cons x xs)
  obtain cl seen nxt where acc: "acc = (cl, seen, nxt)" by (cases acc)
  show ?case
    by (simp add: acc Cons.IH split: sum.splits)
qed

lemma form_clusters_inv:
  "form_clusters n m props (cl, seen, nxt) = Inr (cl', seen', nxt') \<Longrightarrow>
   map fst cl = [0..<nxt] \<Longrightarrow>
   (\<forall>i. i \<notin> seen \<longrightarrow> holders cl i = []) \<Longrightarrow>
   (\<forall>i \<in> seen. length (holders cl i) = 1) \<Longrightarrow> seen \<subseteq> {..<n} \<Longrightarrow>
   map fst cl' = [0..<nxt'] \<and> (\<forall>i. i \<notin> seen' \<longrightarrow> holders cl' i = []) \<and>
   (\<forall>i \<in> seen'. length (holders cl' i) = 1) \<and> seen' \<subseteq> {..<n} \<and> seen \<subseteq> seen' \<and>
   (\<forall>i \<in> seen. holders cl' i = holders cl i)"
proof (induction props arbitrary: cl seen nxt)
  case Nil
  then show ?case by auto
next
  case (Cons c props)
  from Cons.prems(1) obtain elems where el: "json_iter c = Inr elems"
    by (cases "json_iter c") auto
  from Cons.prems(1) el obtain v where v: "valid_indices n seen elems = Inr v"
    by (cases "valid_indices n seen elems") auto
  have unseen: "holders cl i = []" if "i \<notin> seen" for i
    using Cons.prems(3) that by blast
  show ?case
  proof (cases "m \<le> int (length v)")
    case True
    have vs: "set v \<subseteq> {..<n} - seen" using v by (rule valid_indices_set)
    have new: "dict_set nxt v cl = cl @ [(nxt, v)]"
      using Cons.prems(2) by (simp add: dict_set_def)
    have step: "form_clusters n m props (cl @ [(nxt, v)], seen \<union> set v, nxt + 1) =
                  Inr (cl', seen', nxt')"
      using Cons.prems(1) el v True new by simp
    have h: "holders (cl @ [(nxt, v)]) i = holders cl i @ (if i \<in> set v then [nxt] else [])" for i
      by (simp add: holders_def)
    have a: "map fst (cl @ [(nxt, v)]) = [0..<nxt + 1]" using Cons.prems(2) by simp
    have b: "\<forall>i. i \<notin> seen \<union> set v \<longrightarrow> holders (cl @ [(nxt, v)]) i = []"
      using unseen by (simp add: h)
    have c: "\<forall>i \<in> seen \<union> set v. length (holders (cl @ [(nxt, v)]) i) = 1"
      using Cons.prems(4) vs unseen by (auto simp: h)
    have d: "seen \<union> set v \<subseteq> {..<n}" using Cons.prems(5) vs by auto
    from Cons.IH [OF step a b c d]
    have IH: "map fst cl' = [0..<nxt']" "\<forall>i. i \<notin> seen' \<longrightarrow> holders cl' i = []"
      "\<forall>i \<in> seen'. length (holders cl' i) = 1" "seen' \<subseteq> {..<n}" "seen \<union> set v \<subseteq> seen'"
      "\<forall>i \<in> seen \<union> set v. holders cl' i = holders (cl @ [(nxt, v)]) i"
      by auto
    have "\<forall>i \<in> seen. holders cl' i = holders cl i"
      using IH(6) vs by (auto simp: h)
    with IH show ?thesis by auto
  next
    case False
    with Cons.prems(1) el v
    have step: "form_clusters n m props (cl, seen, nxt) = Inr (cl', seen', nxt')" by simp
    from Cons.IH [OF step Cons.prems(2-5)] show ?thesis .
  qed
qed


lemma handle_missing_holders:
  assumes keys: "map fst cl = [0..<nxt]"
    and unseen: "\<forall>i. i \<notin> seen \<longrightarrow> holders cl i = []"
    and seen1: "\<forall>i \<in> seen. length (holders cl i) = 1"
  shows "(\<forall>i<n. length (holders (handle_missing n cl seen) i) = 1) \<and>
         (\<forall>i \<in> seen. holders (handle_missing n cl seen) i = holders cl i)"
proof (cases cl)
  case Nil
  then have "seen = {}" using seen1 by (auto simp: holders_def)
  with Nil show ?thesis by (simp add: handle_missing_empty holders_def)
next
  case (Cons c cs)
  let ?missing = "filter (\<lambda>i. i \<notin> seen) [0..<n]"
  let ?k = "fst (max_by_len c cs)"
  have d: "distinct (map fst cl)" using keys by simp
  have k: "?k \<in> set (map fst cl)"
    using largest_key_mem [of cl ?k] Cons by (simp add: largest_key_Cons)
  show ?thesis
  proof (cases "?missing = []")
    case True
    then have "\<forall>i<n. i \<in> seen" by (auto simp: filter_empty_conv)
    with True Cons seen1 show ?thesis by (simp add: handle_missing_Cons)
  next
    case False
    then have hm: "handle_missing n cl seen = dict_extend ?k ?missing cl"
      using Cons by (simp add: handle_missing_Cons)
    have a: "holders (handle_missing n cl seen) i = holders cl i" if "i \<in> seen" for i
      using that by (simp add: hm holders_dict_extend_other)
    have b: "holders (handle_missing n cl seen) i = [?k]" if "i < n" "i \<notin> seen" for i
      unfolding hm using that unseen by (intro holders_dict_extend_new [OF d k]) auto
    show ?thesis
    proof (intro conjI allI impI ballI)
      fix i assume "i < n"
      then show "length (holders (handle_missing n cl seen) i) = 1"
        using a [of i] b [of i] seen1 by (cases "i \<in> seen") auto
    next
      fix i assume "i \<in> seen"
      then show "holders (handle_missing n cl seen) i = holders cl i" by (rule a)
    qed
  qed
qed

lemma form_clusters_init_inv:
  assumes "form_clusters n m props ([], {}, 0) = Inr (cl, seen, nxt)"
  shows "map fst cl = [0..<nxt]" "\<forall>i. i \<notin> seen \<longrightarrow> holders cl i = []"
    "\<forall>i \<in> seen. length (holders cl i) = 1" "seen \<subseteq> {..<n}"
  using form_clusters_inv [OF assms] by (simp_all add: holders_def)

lemma cluster_array_one_holder:
  assumes "cluster_array n m arr = Inr cl" "i < n"
  shows "length (holders cl i) = 1"
proof -
  from assms(1) obtain props where p: "json_iter arr = Inr props"
    by (cases "json_iter arr") (auto simp: cluster_array_def)
  from assms(1) p obtain cl0 seen0 nxt0 where
    f: "form_clusters n m props ([], {}, 0) = Inr (cl0, seen0, nxt0)"
    by (cases "form_clusters n m props ([], {}, 0)") (auto simp: cluster_array_def)
  from assms(1) p f have cl: "cl = handle_missing n cl0 seen0"
    by (simp add: cluster_array_def)
  from handle_missing_holders [OF form_clusters_init_inv(1-3) [OF f], of n] assms(2) cl
  show ?thesis by simp
qed

lemma cluster_array_first_claim:
  assumes res: "cluster_array n m (JArr (pre @ c # post)) = Inr cl"
    and pre: "form_clusters n m pre ([], {}, 0) = Inr (cl0, seen0, nxt0)"
    and el: "json_iter c = Inr elems"
    and v: "valid_indices n seen0 elems = Inr v"
    and acc: "m \<le> int (length v)"
    and i: "i \<in> set v"
  shows "holders cl i = [nxt0]"
proof -
  have inv0: "map fst cl0 = [0..<nxt0]" "\<forall>i. i \<notin> seen0 \<longrightarrow> holders cl0 i = []"
    "\<forall>i \<in> seen0. length (holders cl0 i) = 1" "seen0 \<subseteq> {..<n}"
    using form_clusters_init_inv [OF pre] by auto
  have vs: "set v \<subseteq> {..<n} - seen0" using v by (rule valid_indices_set)
  let ?cl1 = "cl0 @ [(nxt0, v)]"
  let ?seen1 = "seen0 \<union> set v"
  have new: "dict_set nxt0 v cl0 = ?cl1" using inv0(1) by (simp add: dict_set_def)
  have h: "holders ?cl1 j = holders cl0 j @ (if j \<in> set v then [nxt0] else [])" for j
    by (simp add: holders_def)
  have one: "form_clusters n m [c] (cl0, seen0, nxt0) = Inr (?cl1, ?seen1, nxt0 + 1)"
    using el v acc new by simp
  from res obtain cl2 seen2 nxt2 where
    all: "form_clusters n m (pre @ c # post) ([], {}, 0) = Inr (cl2, seen2, nxt2)"
    and cl: "cl = handle_missing n cl2 seen2"
    by (cases "form_clusters n m (pre @ c # post) ([], {}, 0)") (auto simp: cluster_array_def)
  have "form_clusters n m (pre @ [c] @ post) ([], {}, 0) =
          form_clusters n m post (?cl1, ?seen1, nxt0 + 1)"
    unfolding form_clusters_append using pre one by simp
  with all have post: "form_clusters n m post (?cl1, ?seen1, nxt0 + 1) = Inr (cl2, seen2, nxt2)"
    by simp
  have a: "map fst ?cl1 = [0..<nxt0 + 1]" using inv0(1) by simp
  have b: "\<forall>j. j \<notin> ?seen1 \<longrightarrow> holders ?cl1 j = []" using inv0(2) by (simp add: h)
  have c1: "\<forall>j \<in> ?seen1. length (holders ?cl1 j) = 1"
    using inv0(2,3) vs by (auto simp: h)
  have d: "?seen1 \<subseteq> {..<n}" using inv0(4) vs by auto
  from form_clusters_inv [OF post a b c1 d]
  have inv2: "map fst cl2 = [0..<nxt2]" "\<forall>j. j \<notin> seen2 \<longrightarrow> holders cl2 j = []"
    "\<forall>j \<in> seen2. length (holders cl2 j) = 1" "?seen1 \<subseteq> seen2"
    "\<forall>j \<in> ?seen1. holders cl2 j = holders ?cl1 j"
    by auto
  have "i \<notin> seen0" using i vs by auto
  then have "holders ?cl1 i = [nxt0]" using i inv0(2) by (simp add: h)
  moreover have "holders cl2 i = holders ?cl1 i" using inv2(5) i by simp
  moreover have "holders cl i = holders cl2 i"
    using handle_missing_holders [OF inv2(1-3), of n] inv2(4) i cl by auto
  ultimately show ?thesis by simp
qed

text \<open>
  Claim C3, as amended. Direct clustering returns a map in which every index below the
  number of records is held by exactly one cluster. When the response lists an index in
  several proposed clusters, the index stays with the first proposed cluster that is
  accepted while it still lists the index: if the proposed cluster \<open>c\<close>, filtered against
  the clusters accepted before it, keeps the index and meets the floor, then the cluster
  made from \<open>c\<close> is the only holder. A proposed cluster that is rejected claims nothing.
\<close>

theorem first_accepted_claim_wins:
  "(cluster_array n m arr = Inr cl \<and> i < n \<longrightarrow> length (holders cl i) = 1)
   \<and> (cluster_array n m (JArr (pre @ c # post)) = Inr cl \<and>
        form_clusters n m pre ([], {}, 0) = Inr (cl0, seen0, nxt0) \<and>
        json_iter c = Inr elems \<and> valid_indices n seen0 elems = Inr v \<and>
        m \<le> int (length v) \<and> i \<in> set v \<longrightarrow>
        holders cl i = [nxt0])"
  using cluster_array_one_holder cluster_array_first_claim by blast


text \<open>
  The claim as stated, with the earliest-listed cluster as the winner, fails for two
  records, floor 2 and the response \<^verbatim>\<open>[[0], [0, 1]]\<close>: the first proposed cluster lists
  index 0 and is rejected, and the later occurrence of 0 passes the filter and is kept.
\<close>

theorem earliest_listed_counterexample:
  "cluster_response (map_of [(''[[0], [0, 1]]'', JArr [JArr [JInt 0], JArr [JInt 0, JInt 1]])])
      2 2 ''[[0], [0, 1]]'' = Inr [(0, [0, 1])]
   \<and> valid_indices 2 {} [JInt 0] = Inr [0]
   \<and> form_clusters 2 2 [JArr [JInt 0]] ([], {}, 0) = Inr ([], {}, 0)
   \<and> valid_indices 2 {} [JInt 0, JInt 1] = Inr [0, 1]"
  by (simp add: cluster_defs py_str_defs upt_rec)

text \<open>
  Four records, floor 2, response \<^verbatim>\<open>[[1], [1, 0], [1, 2, 3]]\<close>: the second proposed
  cluster is the first accepted one that lists index 1, and cluster 0 made from it is the
  only holder of 1.
\<close>

theorem first_accepted_claim_wins_witness:
  "cluster_array 4 2
      (JArr ([JArr [JInt 1]] @ JArr [JInt 1, JInt 0] # [JArr [JInt 1, JInt 2, JInt 3]])) =
     Inr [(0, [1, 0]), (1, [2, 3])]
   \<and> form_clusters 4 2 [JArr [JInt 1]] ([], {}, 0) = Inr ([], {}, 0)
   \<and> json_iter (JArr [JInt 1, JInt 0]) = Inr [JInt 1, JInt 0]
   \<and> valid_indices 4 {} [JInt 1, JInt 0] = Inr [1, 0]
   \<and> (2::int) \<le> int (length [1::nat, 0]) \<and> (1::nat) \<in> set [1, 0] \<and> (1::nat) < 4
   \<and> holders [(0, [1, 0]), (1, [2, 3])] 1 = [0]
   \<and> length (holders [(0, [1, 0]), (1, [2, 3])] 1) = 1"
proof -
  let ?pre = "[JArr [JInt 1]]"
  let ?c = "JArr [JInt 1, JInt 0]"
  let ?post = "[JArr [JInt 1, JInt 2, JInt 3]]"
  let ?cl = "[(0::nat, [1::nat, 0]), (1, [2, 3])]"
  have r: "cluster_array 4 2 (JArr (?pre @ ?c # ?post)) = Inr ?cl"
    by (simp add: cluster_defs upt_rec)
  have p: "form_clusters 4 2 ?pre ([], {}, 0) = Inr ([], {}, 0)" by simp
  have e: "json_iter ?c = Inr [JInt 1, JInt 0]" by simp
  have v: "valid_indices 4 {} [JInt 1, JInt 0] = Inr [1, 0]" by simp
  have a: "(2::int) \<le> int (length [1::nat, 0])" by simp
  have i: "(1::nat) \<in> set [1, 0]" and l: "(1::nat) < 4" by simp_all
  note T = first_accepted_claim_wins [where n = 4 and m = 2 and arr = "JArr (?pre @ ?c # ?post)"
      and cl = ?cl and i = 1 and pre = ?pre and c = ?c and post = ?post and ?cl0.0 = "[]"
      and ?seen0.0 = "{}" and ?nxt0.0 = 0 and elems = "[JInt 1, JInt 0]" and v = "[1, 0]"]
  from T r l have "length (holders ?cl 1) = 1" by blast
  moreover from T r p e v a i have "holders ?cl 1 = [0]" by blast
  ultimately show ?thesis using r p e v a i l by blast
qed

section \<open>Incremental assignment: the fallback\<close>













section \<open>Insight generation and the floor\<close>







lemmas insight_defs =
  category_insights_def clustered_insights_def llm_cluster_posts_def INITIAL_SAMPLE_SIZE_def
  single_cluster_def kept_clusters_def cluster_members_def cluster_insight_def
  category_insight_def id_prefix_def pad2_def




section \<open>The entry point on an empty input\<close>




section \<open>The partition property\<close>

text \<open>
  Claim C1 says that the cluster map of \<^verbatim>\<open>llm_cluster_posts\<close> holds every index exactly
  once. The filter of \<^verbatim>\<open>_cluster_initial_sample\<close> tests an index against the indices
  of the clusters accepted before, and the set of seen indices is updated only after
  the whole proposed cluster is filtered, so an index repeated inside one proposed
  cluster is kept as often as it is listed. For two records, floor 2 and the response
  \<^verbatim>\<open>[[0, 0, 1]]\<close> the map is \<^verbatim>\<open>{0: [0, 0, 1]}\<close>: index 0 appears twice.
\<close>

theorem repeated_index_in_one_cluster:
  "llm_cluster_posts (\<lambda>n. Inr ''[[0, 0, 1]]'')
      (map_of [(''[[0, 0, 1]]'', JArr [JArr [JInt 0, JInt 0, JInt 1]])])
      [\<lparr>post_id = ''a'', title = ''T1'', summary = [], sentiment = [], category = []\<rparr>,
       \<lparr>post_id = ''b'', title = ''T2'', summary = [], sentiment = [], category = []\<rparr>]
      2 \<lparr>inner = 0, events = []\<rparr> =
     ([(0, [0, 0, 1])], \<lparr>inner = 1, events = [Invoke]\<rparr>)
   \<and> \<not> distinct (concat (map snd [(0::nat, [0::nat, 0, 1])]))"
  by (simp add: insight_defs cluster_defs gateway_defs py_str_defs)

end
